theory Spec2Isabelle
  imports Main "HOL-Library.Word" "HOL-Library.Monad_Syntax"
begin

section \<open>The process table and the CPU array\<close>

text \<open>
  The system call \<open>sys_pstate\<close> (kernel/proc.c, quoted in the README) walks the process
  table \<open>proc[NPROC]\<close> and the CPU array \<open>cpus[NCPU]\<close> of xv6 and prints a report.
  The embedding keeps the table as typed memory: a \<open>struct proc *\<close> is either the null
  pointer (\<open>None\<close>) or the address of a process entry (\<open>Some a\<close>), and \<open>proc k a\<close> is the
  entry stored there; the entries \<open>0 ..< NPROC\<close> are the slots of the table.
\<close>

text \<open>
  Modelled from the spec: \<open>enum procstate\<close> (kernel/proc.h) is not among the sources.
  The source names SLEEPING, RUNNING and RUNNABLE; the specification lists the other
  states a slot may be in.
\<close>

datatype procstate = UNUSED | EMBRYO | USED | SLEEPING | RUNNABLE | RUNNING | ZOMBIE

type_synonym proc_ptr = "nat option"

text \<open>
  Modelled from the spec: \<open>struct proc\<close> (kernel/proc.h) is not among the sources. Of it
  \<open>sys_pstate\<close> reads the state, the pid (a C \<open>int\<close>), the parent pointer and the name
  (specification, section 3); its lock is kept in the run state below.
\<close>

record proc_t =
  state :: procstate
  pid :: "32 word"
  parent :: proc_ptr
  name :: string

text \<open>
  Modelled from the spec: \<open>struct cpu\<close> (kernel/proc.h) is not among the sources. Of it
  \<open>sys_pstate\<close> reads the field \<open>proc\<close>, the process the CPU runs, null when it is idle
  (specification, section 3).
\<close>

record cpu_t =
  cpu_proc :: proc_ptr

text \<open>The two global arrays \<open>proc\<close> and \<open>cpus\<close>.\<close>

record kernel =
  proc :: "nat \<Rightarrow> proc_t"
  cpus :: "nat \<Rightarrow> cpu_t"

text \<open>
  The compile-time constants \<open>NPROC\<close> and \<open>NCPU\<close> (kernel/param.h) and the label table
  \<open>pstate_states\<close> are used by \<open>sys_pstate\<close> but declared elsewhere: they are parameters.
\<close>

record config =
  NPROC :: nat
  NCPU :: nat
  pstate_states :: "procstate \<Rightarrow> string"

section \<open>What a run does: events, locks held, faults\<close>

text \<open>
  A run of the system call is a sequence of events, in program order: taking and dropping
  a slot lock, reading a process entry through a stored pointer (\<open>p->parent->name\<close>,
  \<open>proc_on_cpu->pid\<close>), and a call of \<open>printf\<close> with the text it writes to the console.
  Beside the events the run state keeps the slot locks the running CPU holds, and a log of
  the reads of the fields of table slots (\<open>p->state\<close>, \<open>p->pid\<close>, \<open>p->parent\<close>, \<open>p->name\<close>):
  each read is entered with the slot, the field and the locks held at that moment.
  A fault of the kernel (a panic, a null pointer read) is the result \<open>None\<close>.
\<close>

datatype event = Acquire nat | Release nat | Deref nat | Printf string

datatype field = F_state | F_pid | F_parent | F_name

record kst =
  trace :: "event list"
  held :: "nat set"
  reads :: "(nat set \<times> nat \<times> field) list"

definition init_kst :: kst where
  "init_kst = \<lparr>trace = [], held = {}, reads = []\<rparr>"

definition emit :: "event \<Rightarrow> kst \<Rightarrow> kst" where
  "emit e s = s\<lparr>trace := trace s @ [e]\<rparr>"

text \<open>
  Modelled from the spec: \<open>acquire\<close> (kernel/spinlock.c) is not among the sources. A lock
  another CPU holds is waited for, and the wait is short and bounded, never indefinite
  (specification, section 5), so \<open>acquire\<close> returns with the lock held. Taking a lock the
  CPU holds already would wait for itself: that call never returns.
\<close>

definition acquire :: "nat \<Rightarrow> kst \<Rightarrow> kst option" where
  "acquire i s =
     (if i \<in> held s then None
      else Some (emit (Acquire i) (s\<lparr>held := insert i (held s)\<rparr>)))"

text \<open>
  Modelled from the spec: \<open>release\<close> (kernel/spinlock.c) is not among the sources. It drops
  a lock the CPU holds (specification, section 6); dropping a lock that is not held is a fault.
\<close>

definition release :: "nat \<Rightarrow> kst \<Rightarrow> kst option" where
  "release i s =
     (if i \<in> held s then Some (emit (Release i) (s\<lparr>held := held s - {i}\<rparr>))
      else None)"

text \<open>
  Reading a field of the slot \<open>p = &proc[i]\<close> the first loop is at: the read yields the
  field's value and is entered in the log.
\<close>

definition note_read :: "nat \<Rightarrow> field \<Rightarrow> kst \<Rightarrow> kst" where
  "note_read i f s = s\<lparr>reads := reads s @ [(held s, i, f)]\<rparr>"

definition read_state :: "kernel \<Rightarrow> nat \<Rightarrow> kst \<Rightarrow> procstate \<times> kst" where
  "read_state k i s = (state (proc k i), note_read i F_state s)"

definition read_pid :: "kernel \<Rightarrow> nat \<Rightarrow> kst \<Rightarrow> 32 word \<times> kst" where
  "read_pid k i s = (pid (proc k i), note_read i F_pid s)"

definition read_parent :: "kernel \<Rightarrow> nat \<Rightarrow> kst \<Rightarrow> proc_ptr \<times> kst" where
  "read_parent k i s = (parent (proc k i), note_read i F_parent s)"

definition read_name :: "kernel \<Rightarrow> nat \<Rightarrow> kst \<Rightarrow> string \<times> kst" where
  "read_name k i s = (name (proc k i), note_read i F_name s)"

text \<open>
  Reading an entry through a stored pointer, as \<open>p->parent->name\<close> and \<open>proc_on_cpu->pid\<close>
  do: the null pointer faults, any other pointer yields the entry it refers to.
\<close>

definition deref :: "kernel \<Rightarrow> proc_ptr \<Rightarrow> kst \<Rightarrow> (proc_t \<times> kst) option" where
  "deref k q s =
     (case q of
        None \<Rightarrow> None
      | Some a \<Rightarrow> Some (proc k a, emit (Deref a) s))"

section \<open>Console output\<close>

abbreviation TAB :: char where "TAB \<equiv> CHR 0x09"
abbreviation NL :: char where "NL \<equiv> CHR 0x0A"

text \<open>
  The kernel's \<open>printf\<close> (kernel/printf.c) is not among the sources. The output format of
  the specification (section 6) puts a decimal number where the format string has \<open>%d\<close> and
  a text where it has \<open>%s\<close>; these are the two conversions the five calls of \<open>sys_pstate\<close>
  use.
\<close>

text \<open>
  Modelled from the spec: the decimal digits of a number, most significant first; part of
  the missing \<open>printf\<close>.
\<close>

fun digits10 :: "nat \<Rightarrow> string" where
  "digits10 x =
     (if x < 10 then [''0123456789'' ! x]
      else digits10 (x div 10) @ [''0123456789'' ! (x mod 10)])"

declare digits10.simps [simp del]

text \<open>
  Modelled from the spec: the text of a signed number under \<open>%d\<close>; part of the missing
  \<open>printf\<close>.
\<close>

definition printint :: "int \<Rightarrow> string" where
  "printint xx = (if xx < 0 then CHR ''-'' # digits10 (nat (- xx)) else digits10 (nat xx))"

text \<open>An argument of \<open>printf\<close>: a C \<open>int\<close> or a text.\<close>

datatype arg = I "32 word" | S string

text \<open>
  Modelled from the spec: the text a format string and its arguments stand for; part of the
  missing \<open>printf\<close>. A conversion without a matching argument is a fault, and so is any
  directive other than \<open>%d\<close> and \<open>%s\<close>.
\<close>

fun format :: "string \<Rightarrow> arg list \<Rightarrow> string option" where
  "format [] args = Some []"
| "format [c] args = (if c = CHR ''%'' then None else Some [c])"
| "format (c # d # fmt) args =
     (if c \<noteq> CHR ''%'' then map_option ((#) c) (format (d # fmt) args)
      else if d = CHR ''d'' then
        (case args of
           I n # rest \<Rightarrow> map_option ((@) (printint (sint n))) (format fmt rest)
         | _ \<Rightarrow> None)
      else if d = CHR ''s'' then
        (case args of
           S str # rest \<Rightarrow> map_option ((@) str) (format fmt rest)
         | _ \<Rightarrow> None)
      else None)"

text \<open>
  Modelled from the spec: \<open>printf\<close> (kernel/printf.c) is not among the sources. A call
  writes the formatted text to the console, as one event of the run.
\<close>

definition printf :: "string \<Rightarrow> arg list \<Rightarrow> kst \<Rightarrow> kst option" where
  "printf fmt args s =
     (case format fmt args of
        None \<Rightarrow> None
      | Some out \<Rightarrow> Some (emit (Printf out) s))"

text \<open>The format strings of the five calls in \<open>sys_pstate\<close>.\<close>

definition fmt_header :: string where
  "fmt_header = ''pid'' @ [TAB] @ ''state'' @ [TAB, TAB] @ ''name'' @ [TAB] @ ''parent'' @ [NL]"

definition fmt_row :: string where
  "fmt_row = ''%d'' @ [TAB] @ ''%s'' @ [TAB, TAB] @ ''%s'' @ [TAB] @ ''%s'' @ [NL]"

definition fmt_total :: string where
  "fmt_total = ''total: %d'' @ [NL]"

definition fmt_running :: string where
  "fmt_running = ''cpu %d: running process %d'' @ [NL]"

definition fmt_idle :: string where
  "fmt_idle = ''cpu %d: idle'' @ [NL]"

section \<open>The system call\<close>

text \<open>A counted loop \<open>for (i = lo; i < hi; i++)\<close> runs its body on \<open>[lo..<hi]\<close>, stopping at a fault.\<close>

primrec for_each :: "nat list \<Rightarrow> (nat \<Rightarrow> 'a \<Rightarrow> 'a option) \<Rightarrow> 'a \<Rightarrow> 'a option" where
  "for_each [] body st = Some st"
| "for_each (i # rest) body st =
     (case body i st of
        None \<Rightarrow> None
      | Some st' \<Rightarrow> for_each rest body st')"

text \<open>
  The first loop of \<open>sys_pstate\<close>:
  \<^verbatim>\<open>
  for(p = proc; p < &proc[NPROC]; p++){
    acquire(&p->lock);
    if(p->state == SLEEPING || p->state == RUNNING || p->state == RUNNABLE) {
      total_processes++;
      char *parent_name = "???";
      if (p->pid == 1) {
        parent_name = "(init)";
      } else if (p->parent) {
        parent_name = p->parent->name;
      }
      printf("%d\t%s\t\t%s\t%s\n", p->pid, pstate_states[p->state], p->name, parent_name);
    }
    release(&p->lock);
  }
  \<close>
  Its test \<open>p->state == SLEEPING || p->state == RUNNING || p->state == RUNNABLE\<close> reads the
  state once for each comparison made, left to right, and stops at the first that holds.
\<close>

definition slot_listed :: "kernel \<Rightarrow> nat \<Rightarrow> kst \<Rightarrow> bool \<times> kst" where
  "slot_listed k i s0 =
     (let (st, s1) = read_state k i s0 in
      if st = SLEEPING then (True, s1)
      else
        let (st, s2) = read_state k i s1 in
        if st = RUNNING then (True, s2)
        else
          let (st, s3) = read_state k i s2 in
          (st = RUNNABLE, s3))"

text \<open>
  The body of the loop, for the slot \<open>p = &proc[i]\<close>; the loop carries the local
  \<open>int total_processes\<close> and the run state. Every \<open>p->field\<close> of the source is a read of
  its own, in the order the statements come; the arguments of \<open>printf\<close> are read left to
  right, and \<open>p->parent->name\<close> reads \<open>p->parent\<close> again before it follows the pointer.
\<close>

definition pstate_proc_body ::
  "(procstate \<Rightarrow> string) \<Rightarrow> kernel \<Rightarrow> nat \<Rightarrow> 32 word \<times> kst \<Rightarrow> (32 word \<times> kst) option" where
  "pstate_proc_body labels k i = (\<lambda>(total_processes, s0).
     do {
       s1 \<leftarrow> acquire i s0;
       let (listed, s2) = slot_listed k i s1;
       (total_processes', s9) \<leftarrow>
         (if listed then
            do {
              let total_processes = total_processes + 1;
              let parent_name = ''???'';
              let (p_pid, s3) = read_pid k i s2;
              (parent_name, s5) \<leftarrow>
                (if p_pid = 1 then Some (''(init)'', s3)
                 else
                   let (p_parent, s4) = read_parent k i s3 in
                   if p_parent \<noteq> None then
                     do {
                       let (p_parent, s4') = read_parent k i s4;
                       (q, s4'') \<leftarrow> deref k p_parent s4';
                       Some (name q, s4'')
                     }
                   else Some (parent_name, s4));
              let (p_pid, s6) = read_pid k i s5;
              let (p_state, s7) = read_state k i s6;
              let (p_name, s8) = read_name k i s7;
              s9 \<leftarrow> printf fmt_row
                      [I p_pid, S (labels p_state), S p_name, S parent_name] s8;
              Some (total_processes, s9)
            }
          else Some (total_processes, s2));
       s10 \<leftarrow> release i s9;
       Some (total_processes', s10)
     })"

text \<open>
  The second loop:
  \<^verbatim>\<open>
  for (int i = 0; i < NCPU; i++) {
    struct proc *proc_on_cpu = cpus[i].proc;
    if(proc_on_cpu){
      printf("cpu %d: running process %d\n", i, proc_on_cpu->pid);
    } else {
      printf("cpu %d: idle\n", i);
    }
  }
  \<close>
  Its body, for the CPU \<open>cpus[i]\<close>.
\<close>

definition pstate_cpu_body :: "kernel \<Rightarrow> nat \<Rightarrow> kst \<Rightarrow> kst option" where
  "pstate_cpu_body k i s0 =
     (let proc_on_cpu = cpu_proc (cpus k i) in
      if proc_on_cpu \<noteq> None then
        do {
          (q, s1) \<leftarrow> deref k proc_on_cpu s0;
          printf fmt_running [I (of_nat i), I (pid q)] s1
        }
      else printf fmt_idle [I (of_nat i)] s0)"

text \<open>
  The system call: the header, the first loop, the total, the second loop, and the status
  code \<open>return 0\<close>.
\<close>

definition sys_pstate :: "config \<Rightarrow> kernel \<Rightarrow> kst \<Rightarrow> (64 word \<times> kst) option" where
  "sys_pstate cfg k s0 =
     do {
       s1 \<leftarrow> printf fmt_header [] s0;
       (total_processes, s2) \<leftarrow>
         for_each [0..<NPROC cfg] (pstate_proc_body (pstate_states cfg) k) (0, s1);
       s3 \<leftarrow> printf fmt_total [I total_processes] s2;
       s4 \<leftarrow> for_each [0..<NCPU cfg] (pstate_cpu_body k) s3;
       Some (0, s4)
     }"

section \<open>Reading a run\<close>

text \<open>The texts written to the console, one per call of \<open>printf\<close>, and the console itself.\<close>

fun printed :: "event list \<Rightarrow> string list" where
  "printed [] = []"
| "printed (Printf out # es) = out # printed es"
| "printed (e # es) = printed es"

definition console :: "event list \<Rightarrow> string" where
  "console tr = concat (printed tr)"

text \<open>
  Every read through a pointer and every call of \<open>printf\<close> of a run, paired with the set
  of slot locks held at that moment (\<open>h\<close> is the set held at the start).
\<close>

fun under_lock :: "nat set \<Rightarrow> event list \<Rightarrow> (nat set \<times> event) list" where
  "under_lock h [] = []"
| "under_lock h (Acquire i # es) = under_lock (insert i h) es"
| "under_lock h (Release i # es) = under_lock (h - {i}) es"
| "under_lock h (e # es) = (h, e) # under_lock h es"

text \<open>What a run does between taking the lock of slot \<open>i\<close> and dropping it.\<close>

definition while_holding :: "nat \<Rightarrow> event list \<Rightarrow> event list" where
  "while_holding i tr =
     takeWhile (\<lambda>e. e \<noteq> Release i) (tl (dropWhile (\<lambda>e. e \<noteq> Acquire i) tr))"

section \<open>The report, slot by slot\<close>

text \<open>
  The events and lines a run is shown to consist of. A slot is active when it passes the
  test of the first loop.
\<close>

definition active :: "proc_t \<Rightarrow> bool" where
  "active p = (state p = SLEEPING \<or> state p = RUNNING \<or> state p = RUNNABLE)"

definition parent_label :: "kernel \<Rightarrow> proc_t \<Rightarrow> string" where
  "parent_label k p =
     (if pid p = 1 then ''(init)''
      else case parent p of Some a \<Rightarrow> name (proc k a) | None \<Rightarrow> ''???'')"

definition row_line :: "(procstate \<Rightarrow> string) \<Rightarrow> kernel \<Rightarrow> nat \<Rightarrow> string" where
  "row_line labels k i =
     (let p = proc k i in
      printint (sint (pid p)) @ [TAB] @ labels (state p) @ [TAB, TAB] @ name p @ [TAB]
        @ parent_label k p @ [NL])"

definition parent_reads :: "proc_t \<Rightarrow> event list" where
  "parent_reads p =
     (if pid p = 1 then [] else case parent p of Some a \<Rightarrow> [Deref a] | None \<Rightarrow> [])"

definition slot_inner :: "(procstate \<Rightarrow> string) \<Rightarrow> kernel \<Rightarrow> nat \<Rightarrow> event list" where
  "slot_inner labels k i =
     (if active (proc k i) then parent_reads (proc k i) @ [Printf (row_line labels k i)] else [])"

definition slot_events :: "(procstate \<Rightarrow> string) \<Rightarrow> kernel \<Rightarrow> nat \<Rightarrow> event list" where
  "slot_events labels k i = Acquire i # slot_inner labels k i @ [Release i]"

definition total_line :: "32 word \<Rightarrow> string" where
  "total_line n = ''total: '' @ printint (sint n) @ [NL]"

definition cpu_line :: "kernel \<Rightarrow> nat \<Rightarrow> string" where
  "cpu_line k i =
     (case cpu_proc (cpus k i) of
        None \<Rightarrow> ''cpu '' @ printint (sint (of_nat i :: 32 word)) @ '': idle'' @ [NL]
      | Some a \<Rightarrow> ''cpu '' @ printint (sint (of_nat i :: 32 word)) @ '': running process ''
                   @ printint (sint (pid (proc k a))) @ [NL])"

definition cpu_events :: "kernel \<Rightarrow> nat \<Rightarrow> event list" where
  "cpu_events k i =
     (case cpu_proc (cpus k i) of None \<Rightarrow> [] | Some a \<Rightarrow> [Deref a]) @ [Printf (cpu_line k i)]"

definition active_slots :: "config \<Rightarrow> kernel \<Rightarrow> nat list" where
  "active_slots cfg k = filter (\<lambda>i. active (proc k i)) [0..<NPROC cfg]"

definition report_events :: "config \<Rightarrow> kernel \<Rightarrow> event list" where
  "report_events cfg k =
     Printf fmt_header # concat (map (slot_events (pstate_states cfg) k) [0..<NPROC cfg])
       @ Printf (total_line (of_nat (length (active_slots cfg k))))
       # concat (map (cpu_events k) [0..<NCPU cfg])"

text \<open>
  The fields of slot \<open>i\<close> its iteration reads, in order: the state once for each comparison
  of the test; for an active slot the pid, the parent pointer unless the pid is 1 (twice when
  it is not null), and then the three arguments of \<open>printf\<close>.
\<close>

definition slot_reads :: "kernel \<Rightarrow> nat \<Rightarrow> field list" where
  "slot_reads k i =
     (let p = proc k i in
      (if state p = SLEEPING then [F_state]
       else if state p = RUNNING then [F_state, F_state]
       else [F_state, F_state, F_state])
      @ (if active p then
           F_pid
             # (if pid p = 1 then []
                else if parent p \<noteq> None then [F_parent, F_parent]
                else [F_parent])
             @ [F_pid, F_state, F_name]
         else []))"

text \<open>The log of reads of a whole run: every field of slot \<open>i\<close> read under the lock of slot \<open>i\<close>.\<close>

definition report_reads :: "config \<Rightarrow> kernel \<Rightarrow> (nat set \<times> nat \<times> field) list" where
  "report_reads cfg k =
     concat (map (\<lambda>i. map (\<lambda>f. ({i}, i, f)) (slot_reads k i)) [0..<NPROC cfg])"

text \<open>
  Appending several events, or several reads, at once; used to state what a whole loop adds
  to a run.
\<close>

definition emits :: "event list \<Rightarrow> kst \<Rightarrow> kst" where
  "emits es s = s\<lparr>trace := trace s @ es\<rparr>"

definition logs :: "(nat set \<times> nat \<times> field) list \<Rightarrow> kst \<Rightarrow> kst" where
  "logs rs s = s\<lparr>reads := reads s @ rs\<rparr>"

section \<open>A small system\<close>

text \<open>
  Five slots and two CPUs: init sleeps (its parent pointer is set, to no effect), the shell
  sleeps, a zombie waits to be reaped, \<open>pi\<close> runs on CPU 0, and a runnable process has no
  parent.
\<close>

definition example_labels :: "procstate \<Rightarrow> string" where
  "example_labels st =
     (case st of
        SLEEPING \<Rightarrow> ''SLEEPING''
      | RUNNABLE \<Rightarrow> ''RUNNABLE''
      | RUNNING \<Rightarrow> ''RUNNING''
      | _ \<Rightarrow> ''???'')"

definition example_config :: config where
  "example_config = \<lparr>NPROC = 5, NCPU = 2, pstate_states = example_labels\<rparr>"

definition unused_slot :: proc_t where
  "unused_slot = \<lparr>state = UNUSED, pid = 0, parent = None, name = []\<rparr>"

definition example_kernel :: kernel where
  "example_kernel =
     \<lparr>proc = (\<lambda>_. unused_slot)
        (0 := \<lparr>state = SLEEPING, pid = 1, parent = Some 1, name = ''init''\<rparr>,
         1 := \<lparr>state = SLEEPING, pid = 2, parent = Some 0, name = ''sh''\<rparr>,
         2 := \<lparr>state = ZOMBIE, pid = 4, parent = Some 1, name = ''cat''\<rparr>,
         3 := \<lparr>state = RUNNING, pid = 3, parent = Some 1, name = ''pi''\<rparr>,
         4 := \<lparr>state = RUNNABLE, pid = 5, parent = None, name = ''lost''\<rparr>),
      cpus = (\<lambda>_. \<lparr>cpu_proc = None\<rparr>)(0 := \<lparr>cpu_proc = Some 3\<rparr>)\<rparr>"

text \<open>
  The user-level entry \<open>int pstate(void)\<close> (user/user.h) traps into \<open>sys_pstate\<close>: a fresh
  run, entered with no slot lock held. It yields the status code and the events of the run.
\<close>

definition pstate :: "config \<Rightarrow> kernel \<Rightarrow> (64 word \<times> event list) option" where
  "pstate cfg k = map_option (\<lambda>(r, s). (r, trace s)) (sys_pstate cfg k init_kst)"

text \<open>Whether every call of \<open>printf\<close> in an annotated run happens with no slot lock held.\<close>

fun output_unlocked :: "(nat set \<times> event) list \<Rightarrow> bool" where
  "output_unlocked [] = True"
| "output_unlocked ((h, Printf out) # rest) = (h = {} \<and> output_unlocked rest)"
| "output_unlocked (x # rest) = output_unlocked rest"

text \<open>The smallest system: one slot holding the runnable root process, one idle CPU.\<close>

definition root_only_config :: config where
  "root_only_config = \<lparr>NPROC = 1, NCPU = 1, pstate_states = example_labels\<rparr>"

definition root_only_kernel :: kernel where
  "root_only_kernel =
     \<lparr>proc = (\<lambda>_. \<lparr>state = RUNNABLE, pid = 1, parent = None, name = ''init''\<rparr>),
      cpus = (\<lambda>_. \<lparr>cpu_proc = None\<rparr>)\<rparr>"

section \<open>A run in closed form\<close>

lemma format_header: "format fmt_header [] = Some fmt_header"
  by (simp add: fmt_header_def)

lemma format_row:
  "format fmt_row [I a, S b, S c, S d] =
     Some (printint (sint a) @ [TAB] @ b @ [TAB, TAB] @ c @ [TAB] @ d @ [NL])"
  by (simp add: fmt_row_def)

lemma format_total: "format fmt_total [I n] = Some (total_line n)"
  by (simp add: fmt_total_def total_line_def)

lemma format_running:
  "format fmt_running [I i, I p] =
     Some (''cpu '' @ printint (sint i) @ '': running process '' @ printint (sint p) @ [NL])"
  by (simp add: fmt_running_def)

lemma format_idle:
  "format fmt_idle [I i] = Some (''cpu '' @ printint (sint i) @ '': idle'' @ [NL])"
  by (simp add: fmt_idle_def)

lemma trace_emits [simp]: "trace (emits es s) = trace s @ es"
  and held_emits [simp]: "held (emits es s) = held s"
  and reads_emits [simp]: "reads (emits es s) = reads s"
  by (simp_all add: emits_def)

lemma trace_logs [simp]: "trace (logs rs s) = trace s"
  and held_logs [simp]: "held (logs rs s) = held s"
  and reads_logs [simp]: "reads (logs rs s) = reads s @ rs"
  by (simp_all add: logs_def)

lemma emits_emits [simp]: "emits ys (emits xs s) = emits (xs @ ys) s"
  by (simp add: emits_def)

lemma logs_logs [simp]: "logs ys (logs xs s) = logs (xs @ ys) s"
  by (simp add: logs_def)

lemma emits_logs [simp]: "emits es (logs rs s) = logs rs (emits es s)"
  by (simp add: emits_def logs_def)

lemma note_read_logs: "note_read i f s = logs [(held s, i, f)] s"
  by (simp add: note_read_def logs_def)

lemma emit_emits: "emit e s = emits [e] s"
  by (simp add: emit_def emits_def)

lemma printf_header: "printf fmt_header [] s = Some (emits [Printf fmt_header] s)"
  by (simp add: printf_def format_header emit_emits)

lemma printf_row:
  "printf fmt_row [I a, S b, S c, S d] s =
     Some (emits [Printf (printint (sint a) @ [TAB] @ b @ [TAB, TAB] @ c @ [TAB] @ d @ [NL])] s)"
  by (simp add: printf_def format_row emit_emits)

lemma printf_total: "printf fmt_total [I n] s = Some (emits [Printf (total_line n)] s)"
  by (simp add: printf_def format_total emit_emits)

lemma printf_running:
  "printf fmt_running [I i, I p] s =
     Some (emits [Printf (''cpu '' @ printint (sint i) @ '': running process ''
                           @ printint (sint p) @ [NL])] s)"
  by (simp add: printf_def format_running emit_emits)

lemma printf_idle:
  "printf fmt_idle [I i] s =
     Some (emits [Printf (''cpu '' @ printint (sint i) @ '': idle'' @ [NL])] s)"
  by (simp add: printf_def format_idle emit_emits)

lemma acquire_in:
  assumes "i \<notin> held s"
  shows "acquire i s = Some (emits [Acquire i] (s\<lparr>held := insert i (held s)\<rparr>))"
  using assms by (simp add: acquire_def emit_def emits_def)

lemma release_out:
  assumes "i \<notin> held s"
  shows "release i (logs rs (emits es (s\<lparr>held := insert i (held s)\<rparr>))) =
           Some (logs rs (emits (es @ [Release i]) s))"
  using assms by (simp add: release_def emit_def emits_def logs_def)

lemma deref_Some: "deref k (Some a) s = Some (proc k a, emits [Deref a] s)"
  by (simp add: deref_def emit_emits)

lemma proc_body_eq:
  assumes "i \<notin> held s"
  shows "pstate_proc_body labels k i (c, s) =
           Some (c + (if active (proc k i) then 1 else 0),
                 logs (map (\<lambda>f. (insert i (held s), i, f)) (slot_reads k i))
                   (emits (slot_events labels k i) s))"
  by (cases "parent (proc k i)")
     (auto simp: pstate_proc_body_def acquire_in [OF assms] release_out [OF assms]
        slot_listed_def read_state_def read_pid_def read_parent_def read_name_def
        note_read_logs deref_Some printf_row
        slot_events_def slot_inner_def parent_reads_def row_line_def parent_label_def
        active_def slot_reads_def Let_def)

lemma cpu_body_eq: "pstate_cpu_body k i s = Some (emits (cpu_events k i) s)"
  by (cases "cpu_proc (cpus k i)")
     (auto simp: pstate_cpu_body_def deref_Some printf_running printf_idle
        cpu_events_def cpu_line_def Let_def)

lemma proc_loop_eq:
  assumes "\<forall>i \<in> set xs. i \<notin> held s"
  shows "for_each xs (pstate_proc_body labels k) (c, s) =
           Some (c + of_nat (length (filter (\<lambda>i. active (proc k i)) xs)),
                 logs (concat (map (\<lambda>i. map (\<lambda>f. (insert i (held s), i, f)) (slot_reads k i)) xs))
                   (emits (concat (map (slot_events labels k) xs)) s))"
  using assms
proof (induction xs arbitrary: c s)
  case Nil
  then show ?case by (simp add: emits_def logs_def)
next
  case (Cons i xs)
  let ?s' = "logs (map (\<lambda>f. (insert i (held s), i, f)) (slot_reads k i))
               (emits (slot_events labels k i) s)"
  have h: "i \<notin> held s" using Cons.prems by simp
  have rest: "\<forall>j \<in> set xs. j \<notin> held ?s'"
    using Cons.prems by simp
  show ?case
    by (simp add: proc_body_eq [OF h] Cons.IH [OF rest])
qed

lemma cpu_loop_eq:
  "for_each xs (pstate_cpu_body k) s = Some (emits (concat (map (cpu_events k) xs)) s)"
  by (induction xs arbitrary: s) (simp_all add: cpu_body_eq emits_def)

lemma sys_pstate_eq:
  assumes "held s = {}"
  shows "sys_pstate cfg k s =
           Some (0, logs (report_reads cfg k) (emits (report_events cfg k) s))"
proof -
  have h: "\<forall>i \<in> set [0..<NPROC cfg]. i \<notin> held (emits [Printf fmt_header] s)"
    using assms by simp
  show ?thesis
    by (simp add: sys_pstate_def printf_header proc_loop_eq [OF h] printf_total cpu_loop_eq
        report_events_def report_reads_def active_slots_def assms)
qed


section \<open>What a run prints, and under which locks\<close>

lemma sint_of_nat_small:
  assumes "n < 2 ^ 31"
  shows "sint (of_nat n :: 32 word) = int n"
proof -
  have "int n < 2 ^ 31" using assms by (simp add: of_nat_less_numeral_power_cancel_iff)
  then show ?thesis
    by (simp add: signed_of_nat signed_take_bit_int_eq_self)
qed

lemma printed_append [simp]: "printed (xs @ ys) = printed xs @ printed ys"
  by (induction xs rule: printed.induct) simp_all

lemma printed_parent_reads [simp]: "printed (parent_reads p) = []"
  by (simp add: parent_reads_def split: option.splits)

lemma printed_slot_events:
  "printed (slot_events labels k i) = (if active (proc k i) then [row_line labels k i] else [])"
  by (simp add: slot_events_def slot_inner_def)

lemma printed_slots:
  "printed (concat (map (slot_events labels k) xs)) =
     map (row_line labels k) (filter (\<lambda>i. active (proc k i)) xs)"
  by (induction xs) (simp_all add: printed_slot_events)

lemma printed_cpu_events: "printed (cpu_events k i) = [cpu_line k i]"
  by (simp add: cpu_events_def split: option.splits)

lemma printed_cpus: "printed (concat (map (cpu_events k) xs)) = map (cpu_line k) xs"
  by (induction xs) (simp_all add: printed_cpu_events)

lemma printed_report:
  "printed (report_events cfg k) =
     fmt_header # map (row_line (pstate_states cfg) k) (active_slots cfg k)
       @ total_line (of_nat (length (active_slots cfg k))) # map (cpu_line k) [0..<NCPU cfg]"
  by (simp add: report_events_def printed_slots printed_cpus active_slots_def)

lemma under_lock_inner:
  "under_lock h (slot_inner labels k i @ rest) =
     map (Pair h) (slot_inner labels k i) @ under_lock h rest"
  by (simp add: slot_inner_def parent_reads_def split: option.splits)

lemma under_lock_slot:
  "under_lock {} (slot_events labels k i @ rest) =
     map (Pair {i}) (slot_inner labels k i) @ under_lock {} rest"
  by (simp add: slot_events_def under_lock_inner)

lemma under_lock_slots:
  "under_lock {} (concat (map (slot_events labels k) xs) @ rest) =
     concat (map (\<lambda>i. map (Pair {i}) (slot_inner labels k i)) xs) @ under_lock {} rest"
  by (induction xs) (simp_all add: under_lock_slot)

lemma under_lock_cpu:
  "under_lock h (cpu_events k i @ rest) = map (Pair h) (cpu_events k i) @ under_lock h rest"
  by (simp add: cpu_events_def split: option.splits)

lemma under_lock_cpus:
  "under_lock h (concat (map (cpu_events k) xs)) = map (Pair h) (concat (map (cpu_events k) xs))"
proof (induction xs)
  case Nil
  then show ?case by simp
next
  case (Cons i xs)
  then show ?case by (simp add: under_lock_cpu)
qed

lemma under_lock_report:
  "under_lock {} (report_events cfg k) =
     ({}, Printf fmt_header)
       # concat (map (\<lambda>i. map (Pair {i}) (slot_inner (pstate_states cfg) k i)) [0..<NPROC cfg])
       @ ({}, Printf (total_line (of_nat (length (active_slots cfg k)))))
       # map (Pair {}) (concat (map (cpu_events k) [0..<NCPU cfg]))"
  by (simp add: report_events_def under_lock_slots under_lock_cpus)

lemma lock_events_slot:
  "Acquire i \<in> set (slot_events labels k j) \<longleftrightarrow> i = j"
  "Release i \<in> set (slot_inner labels k j) \<longleftrightarrow> False"
  by (auto simp: slot_events_def slot_inner_def parent_reads_def split: option.splits if_splits)

lemma while_holding_report:
  assumes "i < NPROC cfg"
  shows "while_holding i (report_events cfg k) = slot_inner (pstate_states cfg) k i"
proof -
  let ?ev = "slot_events (pstate_states cfg) k"
  let ?inner = "slot_inner (pstate_states cfg) k i"
  have split: "[0..<NPROC cfg] = [0..<i] @ i # [Suc i..<NPROC cfg]"
    using assms by (metis le_add1 le_add_same_cancel1 less_imp_add_positive upt_add_eq_append upt_conv_Cons)
  define pre where "pre = Printf fmt_header # concat (map ?ev [0..<i])"
  define post where "post = concat (map ?ev [Suc i..<NPROC cfg])
       @ Printf (total_line (of_nat (length (active_slots cfg k))))
       # concat (map (cpu_events k) [0..<NCPU cfg])"
  have shape: "report_events cfg k = pre @ Acquire i # ?inner @ Release i # post"
    by (simp add: report_events_def split pre_def post_def slot_events_def)
  have pre: "\<forall>e \<in> set pre. e \<noteq> Acquire i"
    by (auto simp: pre_def lock_events_slot)
  have inner: "\<forall>e \<in> set ?inner. e \<noteq> Release i"
    by (auto simp: lock_events_slot)
  have "dropWhile (\<lambda>e. e \<noteq> Acquire i) (report_events cfg k) = Acquire i # ?inner @ Release i # post"
    unfolding shape using pre by (simp add: dropWhile_append3)
  then show ?thesis
    using inner by (simp add: while_holding_def takeWhile_tail)
qed

section \<open>The example system, evaluated\<close>

lemma example_sizes: "NPROC example_config = 5" "NCPU example_config = 2"
  by (simp_all add: example_config_def)

lemma example_active: "active_slots example_config example_kernel = [0, 1, 3, 4]"
  by code_simp

lemma example_rows:
  "map (row_line (pstate_states example_config) example_kernel) [0, 1, 3, 4] =
     [''1'' @ [TAB] @ ''SLEEPING'' @ [TAB, TAB] @ ''init'' @ [TAB] @ ''(init)'' @ [NL],
      ''2'' @ [TAB] @ ''SLEEPING'' @ [TAB, TAB] @ ''sh'' @ [TAB] @ ''init'' @ [NL],
      ''3'' @ [TAB] @ ''RUNNING'' @ [TAB, TAB] @ ''pi'' @ [TAB] @ ''sh'' @ [NL],
      ''5'' @ [TAB] @ ''RUNNABLE'' @ [TAB, TAB] @ ''lost'' @ [TAB] @ ''???'' @ [NL]]"
  by code_simp

lemma printint_small: "printint 3 = ''3''" "printint 4 = ''4''" "printint 5 = ''5''"
  by code_simp+

lemma example_total_line: "total_line 4 = ''total: 4'' @ [NL]"
  by code_simp

lemma example_slots:
  "proc example_kernel 0 = \<lparr>state = SLEEPING, pid = 1, parent = Some 1, name = ''init''\<rparr>"
  "proc example_kernel 1 = \<lparr>state = SLEEPING, pid = 2, parent = Some 0, name = ''sh''\<rparr>"
  "proc example_kernel 2 = \<lparr>state = ZOMBIE, pid = 4, parent = Some 1, name = ''cat''\<rparr>"
  "proc example_kernel 3 = \<lparr>state = RUNNING, pid = 3, parent = Some 1, name = ''pi''\<rparr>"
  "proc example_kernel 4 = \<lparr>state = RUNNABLE, pid = 5, parent = None, name = ''lost''\<rparr>"
  "proc example_kernel (Suc 0) = \<lparr>state = SLEEPING, pid = 2, parent = Some 0, name = ''sh''\<rparr>"
  "pstate_states example_config = example_labels"
  by (simp_all add: example_kernel_def example_config_def)

lemma example_cpu_lines:
  "map (\<lambda>i. case cpu_proc (cpus example_kernel i) of
                        None \<Rightarrow> ''cpu '' @ printint (int i) @ '': idle'' @ [NL]
                      | Some a \<Rightarrow> ''cpu '' @ printint (int i) @ '': running process ''
                                   @ printint (sint (pid (proc example_kernel a))) @ [NL])
                 [0..<2] = [''cpu 0: running process 3'' @ [NL], ''cpu 1: idle'' @ [NL]]"
  by code_simp

lemma example_cpus:
  "map (cpu_line example_kernel) [0..<2] =
     [''cpu 0: running process 3'' @ [NL], ''cpu 1: idle'' @ [NL]]"
  by code_simp

lemma example_count: "(of_nat (length [0, 1, 3, 4 :: nat]) :: 32 word) = 4"
  by simp

lemma len4: "length [w, x, y, z] + 2 = 6"
  by simp


section \<open>The properties of the report\<close>

lemma run_from_init:
  "sys_pstate cfg k init_kst =
     Some (0, logs (report_reads cfg k) (emits (report_events cfg k) init_kst))"
  by (rule sys_pstate_eq) (simp add: init_kst_def)

lemma trace_init [simp]: "trace init_kst = []" and held_init [simp]: "held init_kst = {}"
  and reads_init [simp]: "reads init_kst = []"
  by (simp_all add: init_kst_def)

lemma printint_one: "printint 1 = ''1''"
  by (simp add: printint_def digits10.simps)

text \<open>
  C1: the count on the \<open>total:\<close> line is the number of process rows printed above it.
  The console shows the header, then one row per active slot, then \<open>total: n\<close> where \<open>n\<close> is
  the number of those rows. The counter is a C \<open>int\<close>; the table capacity fits one.
\<close>

theorem pstate_total_matches_rows:
  assumes "NPROC cfg < 2 ^ 31"
  shows "\<exists>s rows. sys_pstate cfg k init_kst = Some (0, s) \<and>
           rows = map (row_line (pstate_states cfg) k) (active_slots cfg k) \<and>
           take (length rows + 2) (printed (trace s)) =
             fmt_header # rows @ [''total: '' @ printint (int (length rows)) @ [NL]]"
proof -
  have "length (active_slots cfg k) \<le> NPROC cfg"
    using length_filter_le [of "\<lambda>i. active (proc k i)" "[0..<NPROC cfg]"]
    by (simp add: active_slots_def)
  then have "length (active_slots cfg k) < 2 ^ 31"
    using assms by simp
  then have "total_line (of_nat (length (active_slots cfg k))) =
               ''total: '' @ printint (int (length (active_slots cfg k))) @ [NL]"
    by (simp add: total_line_def sint_of_nat_small)
  then show ?thesis
    by (simp add: run_from_init printed_report)
qed

theorem pstate_total_matches_rows_witness:
  "NPROC example_config < 2 ^ 31 \<and>
   (\<exists>s. sys_pstate example_config example_kernel init_kst = Some (0, s) \<and>
        take 6 (printed (trace s)) =
          [''pid'' @ [TAB] @ ''state'' @ [TAB, TAB] @ ''name'' @ [TAB] @ ''parent'' @ [NL],
           ''1'' @ [TAB] @ ''SLEEPING'' @ [TAB, TAB] @ ''init'' @ [TAB] @ ''(init)'' @ [NL],
           ''2'' @ [TAB] @ ''SLEEPING'' @ [TAB, TAB] @ ''sh'' @ [TAB] @ ''init'' @ [NL],
           ''3'' @ [TAB] @ ''RUNNING'' @ [TAB, TAB] @ ''pi'' @ [TAB] @ ''sh'' @ [NL],
           ''5'' @ [TAB] @ ''RUNNABLE'' @ [TAB, TAB] @ ''lost'' @ [TAB] @ ''???'' @ [NL],
           ''total: 4'' @ [NL]])"
proof -
  have h: "NPROC example_config < 2 ^ 31"
    by (simp add: example_sizes)
  from pstate_total_matches_rows [OF h, of example_kernel] obtain s where
    run: "sys_pstate example_config example_kernel init_kst = Some (0, s)" and
    out: "take (length (map (row_line (pstate_states example_config) example_kernel)
                          (active_slots example_config example_kernel)) + 2)
            (printed (trace s)) =
          fmt_header # map (row_line (pstate_states example_config) example_kernel)
                         (active_slots example_config example_kernel)
            @ [''total: '' @ printint (int (length
                 (map (row_line (pstate_states example_config) example_kernel)
                    (active_slots example_config example_kernel)))) @ [NL]]"
    by blast
  have "take 6 (printed (trace s)) =
          [''pid'' @ [TAB] @ ''state'' @ [TAB, TAB] @ ''name'' @ [TAB] @ ''parent'' @ [NL],
           ''1'' @ [TAB] @ ''SLEEPING'' @ [TAB, TAB] @ ''init'' @ [TAB] @ ''(init)'' @ [NL],
           ''2'' @ [TAB] @ ''SLEEPING'' @ [TAB, TAB] @ ''sh'' @ [TAB] @ ''init'' @ [NL],
           ''3'' @ [TAB] @ ''RUNNING'' @ [TAB, TAB] @ ''pi'' @ [TAB] @ ''sh'' @ [NL],
           ''5'' @ [TAB] @ ''RUNNABLE'' @ [TAB, TAB] @ ''lost'' @ [TAB] @ ''???'' @ [NL],
           ''total: 4'' @ [NL]]"
    using out unfolding example_active example_rows len4 fmt_header_def
    by (simp add: printint_small)
  with h run show ?thesis by blast
qed

text \<open>
  C2: a slot with pid 1 that is reported gets the parent label \<open>(init)\<close>, whatever its
  parent pointer holds, and nothing is read through that pointer: while the lock of the slot is
  held the run does nothing but print the row, and a slot that is not active prints nothing.
\<close>

theorem pstate_root_parent_label:
  assumes "i < NPROC cfg" and "pid (proc k i) = 1"
  shows "\<exists>s. sys_pstate cfg k init_kst = Some (0, s) \<and>
           while_holding i (trace s) =
             (if state (proc k i) = SLEEPING \<or> state (proc k i) = RUNNING
                   \<or> state (proc k i) = RUNNABLE
              then [Printf (''1'' @ [TAB] @ pstate_states cfg (state (proc k i)) @ [TAB, TAB]
                              @ name (proc k i) @ [TAB] @ ''(init)'' @ [NL])]
              else []) \<and>
           (\<forall>a. Deref a \<notin> set (while_holding i (trace s)))"
  using assms
  by (auto simp: run_from_init while_holding_report slot_inner_def parent_reads_def row_line_def
      parent_label_def printint_one active_def Let_def)

theorem pstate_root_parent_label_witness:
  "0 < NPROC example_config \<and> pid (proc example_kernel 0) = 1 \<and>
   (\<exists>s. sys_pstate example_config example_kernel init_kst = Some (0, s) \<and>
        while_holding 0 (trace s) =
          [Printf (''1'' @ [TAB] @ ''SLEEPING'' @ [TAB, TAB] @ ''init'' @ [TAB] @ ''(init)'' @ [NL])])"
proof -
  have h: "0 < NPROC example_config" "pid (proc example_kernel 0) = 1"
    by (simp_all add: example_sizes example_slots)
  from pstate_root_parent_label [OF h] obtain s where
    run: "sys_pstate example_config example_kernel init_kst = Some (0, s)" and
    out: "while_holding 0 (trace s) =
             (if state (proc example_kernel 0) = SLEEPING \<or> state (proc example_kernel 0) = RUNNING
                   \<or> state (proc example_kernel 0) = RUNNABLE
              then [Printf (''1'' @ [TAB] @ pstate_states example_config (state (proc example_kernel 0))
                              @ [TAB, TAB] @ name (proc example_kernel 0) @ [TAB] @ ''(init)'' @ [NL])]
              else [])"
    by blast
  have "while_holding 0 (trace s) =
          [Printf (''1'' @ [TAB] @ ''SLEEPING'' @ [TAB, TAB] @ ''init'' @ [TAB] @ ''(init)'' @ [NL])]"
    using out by (simp add: example_slots example_labels_def)
  with h run show ?thesis by blast
qed

text \<open>
  C3: a slot whose state is none of SLEEPING, RUNNABLE, RUNNING (UNUSED and ZOMBIE among
  them) gets no row, and the total does not count it: nothing happens while its lock is held, and
  the rows and the count are those of the other active slots.
\<close>

theorem pstate_inactive_slot_skipped:
  assumes "i < NPROC cfg" and "state (proc k i) \<notin> {SLEEPING, RUNNABLE, RUNNING}"
  shows "\<exists>s others. sys_pstate cfg k init_kst = Some (0, s) \<and>
           while_holding i (trace s) = [] \<and>
           others = filter (\<lambda>j. j \<noteq> i \<and> active (proc k j)) [0..<NPROC cfg] \<and>
           take (length others + 2) (printed (trace s)) =
             fmt_header # map (row_line (pstate_states cfg) k) others
               @ [total_line (of_nat (length others))]"
proof -
  have inact: "\<not> active (proc k i)"
    using assms(2) by (auto simp: active_def)
  then have "filter (\<lambda>j. j \<noteq> i \<and> active (proc k j)) [0..<NPROC cfg] = active_slots cfg k"
    unfolding active_slots_def by (intro filter_cong) auto
  then show ?thesis
    using assms(1) inact
    by (simp add: run_from_init while_holding_report slot_inner_def printed_report)
qed

theorem pstate_inactive_slot_skipped_witness:
  "2 < NPROC example_config \<and> state (proc example_kernel 2) \<notin> {SLEEPING, RUNNABLE, RUNNING} \<and>
   (\<exists>s. sys_pstate example_config example_kernel init_kst = Some (0, s) \<and>
        while_holding 2 (trace s) = [] \<and>
        take 6 (printed (trace s)) =
          [''pid'' @ [TAB] @ ''state'' @ [TAB, TAB] @ ''name'' @ [TAB] @ ''parent'' @ [NL],
           ''1'' @ [TAB] @ ''SLEEPING'' @ [TAB, TAB] @ ''init'' @ [TAB] @ ''(init)'' @ [NL],
           ''2'' @ [TAB] @ ''SLEEPING'' @ [TAB, TAB] @ ''sh'' @ [TAB] @ ''init'' @ [NL],
           ''3'' @ [TAB] @ ''RUNNING'' @ [TAB, TAB] @ ''pi'' @ [TAB] @ ''sh'' @ [NL],
           ''5'' @ [TAB] @ ''RUNNABLE'' @ [TAB, TAB] @ ''lost'' @ [TAB] @ ''???'' @ [NL],
           ''total: 4'' @ [NL]])"
proof -
  have h: "2 < NPROC example_config"
    "state (proc example_kernel 2) \<notin> {SLEEPING, RUNNABLE, RUNNING}"
    by (simp_all add: example_sizes example_slots)
  have others: "filter (\<lambda>j. j \<noteq> 2 \<and> active (proc example_kernel j)) [0..<NPROC example_config]
                  = [0, 1, 3, 4]"
    by code_simp
  from pstate_inactive_slot_skipped [OF h] obtain s where
    run: "sys_pstate example_config example_kernel init_kst = Some (0, s)" and
    none: "while_holding 2 (trace s) = []" and
    out: "take (length (filter (\<lambda>j. j \<noteq> 2 \<and> active (proc example_kernel j))
                          [0..<NPROC example_config]) + 2) (printed (trace s)) =
            fmt_header # map (row_line (pstate_states example_config) example_kernel)
                           (filter (\<lambda>j. j \<noteq> 2 \<and> active (proc example_kernel j))
                              [0..<NPROC example_config])
              @ [total_line (of_nat (length (filter (\<lambda>j. j \<noteq> 2 \<and> active (proc example_kernel j))
                          [0..<NPROC example_config])))]"
    by blast
  have "take 6 (printed (trace s)) =
          [''pid'' @ [TAB] @ ''state'' @ [TAB, TAB] @ ''name'' @ [TAB] @ ''parent'' @ [NL],
           ''1'' @ [TAB] @ ''SLEEPING'' @ [TAB, TAB] @ ''init'' @ [TAB] @ ''(init)'' @ [NL],
           ''2'' @ [TAB] @ ''SLEEPING'' @ [TAB, TAB] @ ''sh'' @ [TAB] @ ''init'' @ [NL],
           ''3'' @ [TAB] @ ''RUNNING'' @ [TAB, TAB] @ ''pi'' @ [TAB] @ ''sh'' @ [NL],
           ''5'' @ [TAB] @ ''RUNNABLE'' @ [TAB, TAB] @ ''lost'' @ [TAB] @ ''???'' @ [NL],
           ''total: 4'' @ [NL]]"
    using out unfolding others example_rows len4 fmt_header_def
    by (simp add: example_total_line)
  with h run none show ?thesis by blast
qed

text \<open>
  C4: after the total the console shows exactly one line per CPU, in index order: the idle
  line when the CPU's process pointer is null, and otherwise the running line with the pid
  of the entry the pointer refers to. The two lines are never the same text.
\<close>

theorem pstate_cpu_lines:
  assumes "NCPU cfg < 2 ^ 31"
  shows "\<exists>s. sys_pstate cfg k init_kst = Some (0, s) \<and>
           drop (length (active_slots cfg k) + 2) (printed (trace s)) =
             map (\<lambda>i. case cpu_proc (cpus k i) of
                        None \<Rightarrow> ''cpu '' @ printint (int i) @ '': idle'' @ [NL]
                      | Some a \<Rightarrow> ''cpu '' @ printint (int i) @ '': running process ''
                                   @ printint (sint (pid (proc k a))) @ [NL])
                 [0..<NCPU cfg] \<and>
           (\<forall>x y. ''cpu '' @ x @ '': idle'' @ [NL] \<noteq> ''cpu '' @ x @ '': running process '' @ y)"
proof -
  have "map (cpu_line k) [0..<NCPU cfg] =
          map (\<lambda>i. case cpu_proc (cpus k i) of
                        None \<Rightarrow> ''cpu '' @ printint (int i) @ '': idle'' @ [NL]
                      | Some a \<Rightarrow> ''cpu '' @ printint (int i) @ '': running process ''
                                   @ printint (sint (pid (proc k a))) @ [NL])
                 [0..<NCPU cfg]"
  proof (rule map_cong [OF refl])
    fix i assume "i \<in> set [0..<NCPU cfg]"
    then have "i < 2 ^ 31" using assms by simp
    then show "cpu_line k i =
          (case cpu_proc (cpus k i) of
                        None \<Rightarrow> ''cpu '' @ printint (int i) @ '': idle'' @ [NL]
                      | Some a \<Rightarrow> ''cpu '' @ printint (int i) @ '': running process ''
                                   @ printint (sint (pid (proc k a))) @ [NL])"
      by (simp add: cpu_line_def sint_of_nat_small split: option.splits)
  qed
  then show ?thesis
    by (simp add: run_from_init printed_report)
qed

theorem pstate_cpu_lines_witness:
  "NCPU example_config < 2 ^ 31 \<and>
   (\<exists>s. sys_pstate example_config example_kernel init_kst = Some (0, s) \<and>
        drop 6 (printed (trace s)) =
          [''cpu 0: running process 3'' @ [NL], ''cpu 1: idle'' @ [NL]])"
proof -
  have h: "NCPU example_config < 2 ^ 31"
    by (simp add: example_sizes)
  from pstate_cpu_lines [OF h, of example_kernel] obtain s where
    run: "sys_pstate example_config example_kernel init_kst = Some (0, s)" and
    out: "drop (length (active_slots example_config example_kernel) + 2) (printed (trace s)) =
             map (\<lambda>i. case cpu_proc (cpus example_kernel i) of
                        None \<Rightarrow> ''cpu '' @ printint (int i) @ '': idle'' @ [NL]
                      | Some a \<Rightarrow> ''cpu '' @ printint (int i) @ '': running process ''
                                   @ printint (sint (pid (proc example_kernel a))) @ [NL])
                 [0..<NCPU example_config]"
    by blast
  have "drop 6 (printed (trace s)) =
          [''cpu 0: running process 3'' @ [NL], ''cpu 1: idle'' @ [NL]]"
    using out unfolding example_active example_sizes example_cpu_lines len4
    by simp
  with h run show ?thesis by blast
qed

text \<open>
  C5: for an active slot that is not the root, the parent pointer is read through only when
  it is not null: then the run reads the parent's entry and prints its name; a null parent is not
  read through, and the row shows \<open>???\<close>. The run never faults.
\<close>

theorem pstate_parent_null_checked:
  assumes "i < NPROC cfg" and "active (proc k i)" and "pid (proc k i) \<noteq> 1"
  shows "\<exists>s. sys_pstate cfg k init_kst = Some (0, s) \<and>
           while_holding i (trace s) =
             (case parent (proc k i) of
                Some a \<Rightarrow>
                  [Deref a,
                   Printf (printint (sint (pid (proc k i))) @ [TAB]
                            @ pstate_states cfg (state (proc k i)) @ [TAB, TAB]
                            @ name (proc k i) @ [TAB] @ name (proc k a) @ [NL])]
              | None \<Rightarrow>
                  [Printf (printint (sint (pid (proc k i))) @ [TAB]
                            @ pstate_states cfg (state (proc k i)) @ [TAB, TAB]
                            @ name (proc k i) @ [TAB] @ ''???'' @ [NL])])"
  using assms
  by (auto simp: run_from_init while_holding_report slot_inner_def parent_reads_def row_line_def
      parent_label_def Let_def split: option.splits)

theorem pstate_parent_null_checked_witness:
  "3 < NPROC example_config \<and> active (proc example_kernel 3) \<and> pid (proc example_kernel 3) \<noteq> 1 \<and>
   (\<exists>s. sys_pstate example_config example_kernel init_kst = Some (0, s) \<and>
        while_holding 3 (trace s) =
          [Deref 1,
           Printf (''3'' @ [TAB] @ ''RUNNING'' @ [TAB, TAB] @ ''pi'' @ [TAB] @ ''sh'' @ [NL])]) \<and>
   4 < NPROC example_config \<and> active (proc example_kernel 4) \<and> pid (proc example_kernel 4) \<noteq> 1 \<and>
   (\<exists>s. sys_pstate example_config example_kernel init_kst = Some (0, s) \<and>
        while_holding 4 (trace s) =
          [Printf (''5'' @ [TAB] @ ''RUNNABLE'' @ [TAB, TAB] @ ''lost'' @ [TAB] @ ''???'' @ [NL])])"
proof -
  have h3: "3 < NPROC example_config" "active (proc example_kernel 3)"
    "pid (proc example_kernel 3) \<noteq> 1"
    by (simp_all add: example_sizes example_slots active_def)
  from pstate_parent_null_checked [OF h3] obtain s where
    run: "sys_pstate example_config example_kernel init_kst = Some (0, s)" and
    out: "while_holding 3 (trace s) =
             (case parent (proc example_kernel 3) of
                Some a \<Rightarrow>
                  [Deref a,
                   Printf (printint (sint (pid (proc example_kernel 3))) @ [TAB]
                            @ pstate_states example_config (state (proc example_kernel 3)) @ [TAB, TAB]
                            @ name (proc example_kernel 3) @ [TAB] @ name (proc example_kernel a) @ [NL])]
              | None \<Rightarrow>
                  [Printf (printint (sint (pid (proc example_kernel 3))) @ [TAB]
                            @ pstate_states example_config (state (proc example_kernel 3)) @ [TAB, TAB]
                            @ name (proc example_kernel 3) @ [TAB] @ ''???'' @ [NL])])"
    by blast
  have with_parent: "while_holding 3 (trace s) =
          [Deref 1,
           Printf (''3'' @ [TAB] @ ''RUNNING'' @ [TAB, TAB] @ ''pi'' @ [TAB] @ ''sh'' @ [NL])]"
    using out by (simp add: example_slots example_labels_def printint_small)
  have h4: "4 < NPROC example_config" "active (proc example_kernel 4)"
    "pid (proc example_kernel 4) \<noteq> 1"
    by (simp_all add: example_sizes example_slots active_def)
  from pstate_parent_null_checked [OF h4] obtain s' where
    run': "sys_pstate example_config example_kernel init_kst = Some (0, s')" and
    out': "while_holding 4 (trace s') =
             (case parent (proc example_kernel 4) of
                Some a \<Rightarrow>
                  [Deref a,
                   Printf (printint (sint (pid (proc example_kernel 4))) @ [TAB]
                            @ pstate_states example_config (state (proc example_kernel 4)) @ [TAB, TAB]
                            @ name (proc example_kernel 4) @ [TAB] @ name (proc example_kernel a) @ [NL])]
              | None \<Rightarrow>
                  [Printf (printint (sint (pid (proc example_kernel 4))) @ [TAB]
                            @ pstate_states example_config (state (proc example_kernel 4)) @ [TAB, TAB]
                            @ name (proc example_kernel 4) @ [TAB] @ ''???'' @ [NL])])"
    by blast
  have without_parent: "while_holding 4 (trace s') =
          [Printf (''5'' @ [TAB] @ ''RUNNABLE'' @ [TAB, TAB] @ ''lost'' @ [TAB] @ ''???'' @ [NL])]"
    using out' by (simp add: example_slots example_labels_def printint_small)
  from h3 h4 run with_parent run' without_parent show ?thesis by blast
qed

text \<open>
  C6: the console output is the header line, then one row per active slot in slot order,
  each \<open>pid TAB state TAB TAB name TAB parent NL\<close>, then the \<open>total:\<close> line, then one line per
  CPU in index order.
\<close>

theorem pstate_output_structure:
  "\<exists>s. sys_pstate cfg k init_kst = Some (0, s) \<and>
     console (trace s) =
       fmt_header
         @ concat (map (row_line (pstate_states cfg) k) (active_slots cfg k))
         @ total_line (of_nat (length (active_slots cfg k)))
         @ concat (map (cpu_line k) [0..<NCPU cfg]) \<and>
     active_slots cfg k = filter (\<lambda>i. active (proc k i)) [0..<NPROC cfg] \<and>
     fmt_header = ''pid'' @ [TAB] @ ''state'' @ [TAB, TAB] @ ''name'' @ [TAB] @ ''parent'' @ [NL] \<and>
     (\<forall>i. row_line (pstate_states cfg) k i =
            printint (sint (pid (proc k i))) @ [TAB] @ pstate_states cfg (state (proc k i))
              @ [TAB, TAB] @ name (proc k i) @ [TAB] @ parent_label k (proc k i) @ [NL]) \<and>
     (\<forall>n. total_line n = ''total: '' @ printint (sint n) @ [NL]) \<and>
     (\<forall>i. cpu_line k i =
            ''cpu '' @ printint (sint (of_nat i :: 32 word))
              @ (case cpu_proc (cpus k i) of
                   None \<Rightarrow> '': idle''
                 | Some a \<Rightarrow> '': running process '' @ printint (sint (pid (proc k a))))
              @ [NL])"
  by (simp add: run_from_init printed_report console_def active_slots_def fmt_header_def
      row_line_def total_line_def cpu_line_def Let_def split: option.splits)

theorem pstate_output_structure_witness:
  "\<exists>s. sys_pstate example_config example_kernel init_kst = Some (0, s) \<and>
     console (trace s) =
       ''pid'' @ [TAB] @ ''state'' @ [TAB, TAB] @ ''name'' @ [TAB] @ ''parent'' @ [NL]
       @ ''1'' @ [TAB] @ ''SLEEPING'' @ [TAB, TAB] @ ''init'' @ [TAB] @ ''(init)'' @ [NL]
       @ ''2'' @ [TAB] @ ''SLEEPING'' @ [TAB, TAB] @ ''sh'' @ [TAB] @ ''init'' @ [NL]
       @ ''3'' @ [TAB] @ ''RUNNING'' @ [TAB, TAB] @ ''pi'' @ [TAB] @ ''sh'' @ [NL]
       @ ''5'' @ [TAB] @ ''RUNNABLE'' @ [TAB, TAB] @ ''lost'' @ [TAB] @ ''???'' @ [NL]
       @ ''total: 4'' @ [NL]
       @ ''cpu 0: running process 3'' @ [NL]
       @ ''cpu 1: idle'' @ [NL]"
proof -
  from pstate_output_structure [of example_config example_kernel] obtain s where
    run: "sys_pstate example_config example_kernel init_kst = Some (0, s)" and
    out: "console (trace s) =
       fmt_header
         @ concat (map (row_line (pstate_states example_config) example_kernel)
                     (active_slots example_config example_kernel))
         @ total_line (of_nat (length (active_slots example_config example_kernel)))
         @ concat (map (cpu_line example_kernel) [0..<NCPU example_config])"
    by blast
  have "console (trace s) =
       ''pid'' @ [TAB] @ ''state'' @ [TAB, TAB] @ ''name'' @ [TAB] @ ''parent'' @ [NL]
       @ ''1'' @ [TAB] @ ''SLEEPING'' @ [TAB, TAB] @ ''init'' @ [TAB] @ ''(init)'' @ [NL]
       @ ''2'' @ [TAB] @ ''SLEEPING'' @ [TAB, TAB] @ ''sh'' @ [TAB] @ ''init'' @ [NL]
       @ ''3'' @ [TAB] @ ''RUNNING'' @ [TAB, TAB] @ ''pi'' @ [TAB] @ ''sh'' @ [NL]
       @ ''5'' @ [TAB] @ ''RUNNABLE'' @ [TAB, TAB] @ ''lost'' @ [TAB] @ ''???'' @ [NL]
       @ ''total: 4'' @ [NL]
       @ ''cpu 0: running process 3'' @ [NL]
       @ ''cpu 1: idle'' @ [NL]"
    using out
    unfolding example_active example_rows example_count example_total_line example_sizes
      example_cpus fmt_header_def
    by simp
  with run show ?thesis by blast
qed

text \<open>
  C7, as amended: every field of a row (pid, state, name, and the parent pointer and the
  parent's name behind it) is read while the lock of the row's slot, and no other, is held,
  and the row is printed while that lock is still held; the lock is dropped only after the
  row's \<open>printf\<close>. The header, the total and the CPU lines are printed with no slot lock
  held.
\<close>

theorem pstate_row_printed_under_lock:
  "\<exists>s. sys_pstate cfg k init_kst = Some (0, s) \<and>
     reads s =
       concat (map (\<lambda>i. map (\<lambda>f. ({i}, i, f)) (slot_reads k i)) [0..<NPROC cfg]) \<and>
     (\<forall>i. slot_reads k i =
        (if state (proc k i) = SLEEPING then [F_state]
         else if state (proc k i) = RUNNING then [F_state, F_state]
         else [F_state, F_state, F_state])
        @ (if active (proc k i) then
             F_pid
               # (if pid (proc k i) = 1 then []
                  else if parent (proc k i) \<noteq> None then [F_parent, F_parent]
                  else [F_parent])
               @ [F_pid, F_state, F_name]
           else [])) \<and>
     list_all (\<lambda>(h, i, f). h = {i}) (reads s) \<and>
     under_lock {} (trace s) =
       ({}, Printf fmt_header)
         # concat (map (\<lambda>i. map (Pair {i})
                          (if active (proc k i)
                           then parent_reads (proc k i) @ [Printf (row_line (pstate_states cfg) k i)]
                           else []))
                    [0..<NPROC cfg])
         @ ({}, Printf (total_line (of_nat (length (active_slots cfg k)))))
         # map (Pair {}) (concat (map (cpu_events k) [0..<NCPU cfg]))"
proof -
  let ?s = "logs (report_reads cfg k) (emits (report_events cfg k) init_kst)"
  have run: "sys_pstate cfg k init_kst = Some (0, ?s)"
    by (rule run_from_init)
  have log: "reads ?s =
       concat (map (\<lambda>i. map (\<lambda>f. ({i}, i, f)) (slot_reads k i)) [0..<NPROC cfg])"
    by (simp add: report_reads_def)
  have fields: "\<forall>i. slot_reads k i =
        (if state (proc k i) = SLEEPING then [F_state]
         else if state (proc k i) = RUNNING then [F_state, F_state]
         else [F_state, F_state, F_state])
        @ (if active (proc k i) then
             F_pid
               # (if pid (proc k i) = 1 then []
                  else if parent (proc k i) \<noteq> None then [F_parent, F_parent]
                  else [F_parent])
               @ [F_pid, F_state, F_name]
           else [])"
    by (simp add: slot_reads_def Let_def)
  have own: "list_all (\<lambda>(h, i, f). h = {i}) (reads ?s)"
    unfolding log by (simp add: list_all_iff)
  have inner: "slot_inner (pstate_states cfg) k =
      (\<lambda>i. if active (proc k i)
            then parent_reads (proc k i) @ [Printf (row_line (pstate_states cfg) k i)]
            else [])"
    by (rule ext) (simp add: slot_inner_def)
  have "under_lock {} (trace ?s) = under_lock {} (report_events cfg k)"
    by simp
  then have locks: "under_lock {} (trace ?s) =
       ({}, Printf fmt_header)
         # concat (map (\<lambda>i. map (Pair {i})
                          (if active (proc k i)
                           then parent_reads (proc k i) @ [Printf (row_line (pstate_states cfg) k i)]
                           else []))
                    [0..<NPROC cfg])
         @ ({}, Printf (total_line (of_nat (length (active_slots cfg k)))))
         # map (Pair {}) (concat (map (cpu_events k) [0..<NCPU cfg]))"
    unfolding under_lock_report inner by simp
  from run log fields own locks show ?thesis
    by blast
qed

theorem pstate_row_printed_under_lock_witness:
  "\<exists>s. sys_pstate root_only_config root_only_kernel init_kst = Some (0, s) \<and>
     reads s =
       [({0}, 0, F_state), ({0}, 0, F_state), ({0}, 0, F_state), ({0}, 0, F_pid),
        ({0}, 0, F_pid), ({0}, 0, F_state), ({0}, 0, F_name)] \<and>
     under_lock {} (trace s) =
       [({}, Printf (''pid'' @ [TAB] @ ''state'' @ [TAB, TAB] @ ''name'' @ [TAB] @ ''parent'' @ [NL])),
        ({0}, Printf (''1'' @ [TAB] @ ''RUNNABLE'' @ [TAB, TAB] @ ''init'' @ [TAB] @ ''(init)'' @ [NL])),
        ({}, Printf (''total: 1'' @ [NL])),
        ({}, Printf (''cpu 0: idle'' @ [NL]))]"
proof -
  from pstate_row_printed_under_lock [of root_only_config root_only_kernel] obtain s where
    run: "sys_pstate root_only_config root_only_kernel init_kst = Some (0, s)" and
    log: "reads s =
       concat (map (\<lambda>i. map (\<lambda>f. ({i}, i, f)) (slot_reads root_only_kernel i))
                 [0..<NPROC root_only_config])"
    by blast
  have fields: "slot_reads root_only_kernel 0 =
      [F_state, F_state, F_state, F_pid, F_pid, F_state, F_name]"
    by (simp add: slot_reads_def root_only_kernel_def active_def)
  have "reads s =
       [({0}, 0, F_state), ({0}, 0, F_state), ({0}, 0, F_state), ({0}, 0, F_pid),
        ({0}, 0, F_pid), ({0}, 0, F_state), ({0}, 0, F_name)]"
    unfolding log by (simp add: root_only_config_def fields)
  moreover have "map_option (under_lock {} \<circ> snd) (pstate root_only_config root_only_kernel) =
       Some [({}, Printf (''pid'' @ [TAB] @ ''state'' @ [TAB, TAB] @ ''name'' @ [TAB] @ ''parent'' @ [NL])),
        ({0}, Printf (''1'' @ [TAB] @ ''RUNNABLE'' @ [TAB, TAB] @ ''init'' @ [TAB] @ ''(init)'' @ [NL])),
        ({}, Printf (''total: 1'' @ [NL])),
        ({}, Printf (''cpu 0: idle'' @ [NL]))]"
    by code_simp
  then have "under_lock {} (trace s) =
       [({}, Printf (''pid'' @ [TAB] @ ''state'' @ [TAB, TAB] @ ''name'' @ [TAB] @ ''parent'' @ [NL])),
        ({0}, Printf (''1'' @ [TAB] @ ''RUNNABLE'' @ [TAB, TAB] @ ''init'' @ [TAB] @ ''(init)'' @ [NL])),
        ({}, Printf (''total: 1'' @ [NL])),
        ({}, Printf (''cpu 0: idle'' @ [NL]))]"
    using run by (simp add: pstate_def)
  ultimately show ?thesis
    using run by blast
qed

text \<open>
  With the root process alone in the table, its row is printed between taking and dropping
  the lock of slot 0: the row's \<open>printf\<close> runs with that lock held.
\<close>

theorem pstate_prints_row_holding_lock:
  "map_option (under_lock {} \<circ> snd) (pstate root_only_config root_only_kernel) =
     Some [({}, Printf (''pid'' @ [TAB] @ ''state'' @ [TAB, TAB] @ ''name'' @ [TAB] @ ''parent'' @ [NL])),
           ({0}, Printf (''1'' @ [TAB] @ ''RUNNABLE'' @ [TAB, TAB] @ ''init'' @ [TAB] @ ''(init)'' @ [NL])),
           ({}, Printf (''total: 1'' @ [NL])),
           ({}, Printf (''cpu 0: idle'' @ [NL]))] \<and>
   map_option (output_unlocked \<circ> under_lock {} \<circ> snd) (pstate root_only_config root_only_kernel) =
     Some False"
  by code_simp

text \<open>
  C8: two calls in a row on the same table and CPU array print the same text: the second
  call, entered in the run state the first one leaves, adds the events of the first once more.
\<close>

theorem pstate_twice_same_output:
  "\<exists>s1 s2. sys_pstate cfg k init_kst = Some (0, s1) \<and>
     sys_pstate cfg k s1 = Some (0, s2) \<and>
     trace s2 = trace s1 @ trace s1 \<and>
     console (trace s2) = console (trace s1) @ console (trace s1)"
proof -
  let ?s1 = "logs (report_reads cfg k) (emits (report_events cfg k) init_kst)"
  let ?s2 = "logs (report_reads cfg k) (emits (report_events cfg k) ?s1)"
  have first: "sys_pstate cfg k init_kst = Some (0, ?s1)"
    by (rule run_from_init)
  have "held ?s1 = {}"
    by simp
  then have second: "sys_pstate cfg k ?s1 = Some (0, ?s2)"
    by (rule sys_pstate_eq)
  have events: "trace ?s2 = trace ?s1 @ trace ?s1"
    by simp
  then have shown: "console (trace ?s2) = console (trace ?s1) @ console (trace ?s1)"
    by (simp add: console_def)
  from first second events shown show ?thesis
    by blast
qed

lemma length_slot_events: "length (slot_events labels k i) \<le> 4"
  by (simp add: slot_events_def slot_inner_def parent_reads_def split: option.splits)

lemma length_cpu_events: "length (cpu_events k i) \<le> 2"
  by (simp add: cpu_events_def split: option.splits)

lemma length_slot_reads: "length (slot_reads k i) \<le> 9"
  by (simp add: slot_reads_def Let_def)

lemma length_concat_bound:
  assumes "\<And>x. length (f x) \<le> c"
  shows "length (concat (map f xs)) \<le> c * length xs"
proof (induction xs)
  case Nil
  then show ?case by simp
next
  case (Cons x xs)
  then show ?case using assms [of x] by simp
qed

text \<open>
  C9: the call returns, for every table and CPU array, with every slot lock dropped and
  without a fault, after at most \<open>2 + 4 * NPROC + 2 * NCPU\<close>-many events: four per slot, two per
  CPU, and the header and total lines; and it reads at most nine fields per slot.
\<close>

theorem pstate_terminates:
  "\<exists>r s. sys_pstate cfg k init_kst = Some (r, s) \<and> held s = {} \<and>
     length (trace s) \<le> 2 + 4 * NPROC cfg + 2 * NCPU cfg \<and>
     length (reads s) \<le> 9 * NPROC cfg"
proof -
  have c: "length (report_reads cfg k) \<le> 9 * NPROC cfg"
    using length_concat_bound
      [of "\<lambda>i. map (\<lambda>f. ({i}, i, f)) (slot_reads k i)" 9 "[0..<NPROC cfg]"]
    by (simp add: report_reads_def length_slot_reads)
  have a: "length (concat (map (slot_events (pstate_states cfg) k) [0..<NPROC cfg])) \<le> 4 * NPROC cfg"
    using length_concat_bound [of "slot_events (pstate_states cfg) k" 4 "[0..<NPROC cfg]"]
    by (simp add: length_slot_events)
  have b: "length (concat (map (cpu_events k) [0..<NCPU cfg])) \<le> 2 * NCPU cfg"
    using length_concat_bound [of "cpu_events k" 2 "[0..<NCPU cfg]"]
    by (simp add: length_cpu_events)
  have "length (report_events cfg k) \<le> 2 + 4 * NPROC cfg + 2 * NCPU cfg"
    using a b by (simp add: report_events_def)
  then show ?thesis
    using c by (simp add: run_from_init)
qed

text \<open>
  C10: the status code is 0: a call entered with no lock held returns 0, and from no run
  state at all does the call return another value.
\<close>

theorem pstate_returns_zero:
  "(\<exists>s. sys_pstate cfg k init_kst = Some (0, s)) \<and>
   (\<forall>s0 r s. sys_pstate cfg k s0 = Some (r, s) \<longrightarrow> r = 0)"
proof (intro conjI allI impI)
  show "\<exists>s. sys_pstate cfg k init_kst = Some (0, s)"
    by (simp add: run_from_init)
next
  fix s0 r s
  assume "sys_pstate cfg k s0 = Some (r, s)"
  then show "r = 0"
    by (auto simp: sys_pstate_def split: Option.bind_splits)
qed

theorem pstate_returns_zero_witness:
  "\<exists>r s. sys_pstate example_config example_kernel init_kst = Some (r, s) \<and> r = 0"
proof -
  note zero = pstate_returns_zero [of example_config example_kernel]
  from zero obtain r s where
    run: "sys_pstate example_config example_kernel init_kst = Some (r, s)"
    by blast
  with zero have "r = 0"
    by blast
  with run show ?thesis
    by blast
qed

end
